theory Spec2Isabelle
  imports Main
begin

section \<open>Restart Loop Guard: data model\<close>

text \<open>
  The development embeds the decision core of
  \<^verbatim>\<open>AutomationZ_Restart_Loop_Guard/app/main.py\<close>: the evaluator
  \<^verbatim>\<open>compute_status\<close>, the record/analyze transaction
  \<^verbatim>\<open>App.refresh_status\<close>, \<^verbatim>\<open>App.unlock\<close>,
  \<^verbatim>\<open>App.clear_history\<close>, \<^verbatim>\<open>App._maybe_notify\<close> and
  \<^verbatim>\<open>App.save_cfg\<close>.

  Conventions of the embedding.
  \<^item> Python integers are \<open>int\<close>; \<open>len\<close> is \<open>int (length _)\<close>.
  \<^item> A Python \<open>str\<close> is a \<open>string\<close> whose characters are the code points below 256.
  \<^item> The configuration dictionary is a record of optional fields: \<open>None\<close> is a missing
    key, so that every \<^verbatim>\<open>cfg.get(key, default)\<close> of the source is a case on the
    field. Fields hold values of the JSON type the program writes itself (integers for the
    thresholds, a boolean, a string), so \<^verbatim>\<open>int(...)\<close> on them is the identity.
    The field names of the configuration carry the prefix \<open>cfg_\<close> because
    \<open>max_attempts\<close> is also a field of \<open>Status\<close>.
  \<^item> The files are fields of the application state: the ledger is \<open>None\<close> when the
    file is missing (or unreadable, or not a list: \<^verbatim>\<open>load_json\<close> and the
    \<^verbatim>\<open>isinstance\<close> test both fall back to the empty list), the lock marker is a
    boolean (the file exists), the log is the list of the messages appended (the wall-clock
    prefix of each line is left out). The four files are distinct files, and every file
    operation (write, create, remove) succeeds.
  \<^item> The clock \<^verbatim>\<open>_now_ts()\<close> is the argument \<open>now\<close> of each operation.
  \<^item> The network is the argument \<open>net\<close>: what a POST to a webhook URL does.
  \<^item> What an operation shows to its caller (the status put on the dashboard, the message
    box) is returned next to the new state.
\<close>

record Status =
  state :: string
  message :: string
  attempt_count :: int
  max_attempts :: int
  window_seconds :: int
  timestamps :: "int list"

record notify_cfg =
  enabled :: "bool option"
  discord_webhook_url :: "string option"
  include_last_lines :: "int option"
  extra_context :: "(string \<times> string) list option"

record config =
  cfg_max_attempts :: "int option"
  cfg_time_window_seconds :: "int option"
  cfg_backoff_seconds :: "int list option"
  cfg_notify :: "notify_cfg option"

text \<open>
  The incident dictionary of \<^verbatim>\<open>make_incident\<close>; its \<^verbatim>\<open>time\<close> and
  \<^verbatim>\<open>host\<close> entries (local time formatting, host name lookup) are not part of the
  model.
\<close>

record incident =
  inc_version :: string
  inc_timestamp :: int
  inc_state :: string
  inc_message :: string
  inc_attempt_count :: int
  inc_max_attempts :: int
  inc_window_seconds :: int
  inc_attempt_timestamps :: "int list"
  inc_automationz :: "(string \<times> string) list"

datatype error = ValueError string

datatype dialog = showinfo string string | showerror string error

datatype post_result = Returned | Raised string

record app =
  cfg :: config
  config_file :: "config option"
  state_file :: "int list option"
  lock_file :: bool
  incident_file :: "incident option"
  log_file :: "string list"
  var_max :: string
  var_window :: string
  var_backoff :: string
  var_notify_enabled :: bool
  var_webhook :: string

section \<open>Strings and integers\<close>

text \<open>\<^verbatim>\<open>str(n)\<close> for an integer, used by the f-strings of the messages.\<close>

fun str_nat :: "nat \<Rightarrow> string" where
  "str_nat n =
     (if n < 10 then [char_of (48 + n)]
      else str_nat (n div 10) @ [char_of (48 + n mod 10)])"

declare str_nat.simps [simp del]

definition str_int :: "int \<Rightarrow> string" where
  "str_int i = (if i < 0 then CHR ''-'' # str_nat (nat (- i)) else str_nat (nat i))"

text \<open>
  \<^verbatim>\<open>str.strip()\<close>: the white space of Python among the code points below 256
  (tab to carriage return, the four separators 28 to 31, space, 133 and 160).
\<close>

definition isspace :: "char \<Rightarrow> bool" where
  "isspace c =
     (let n = (of_char c :: nat)
      in (9 \<le> n \<and> n \<le> 13) \<or> (28 \<le> n \<and> n \<le> 32) \<or> n = 133 \<or> n = 160)"

definition str_strip :: "string \<Rightarrow> string" where
  "str_strip s = rev (dropWhile isspace (rev (dropWhile isspace s)))"

text \<open>\<^verbatim>\<open>s.split(sep)\<close> for a separator of one character.\<close>

fun str_split :: "char \<Rightarrow> string \<Rightarrow> string list" where
  "str_split sep [] = [[]]"
| "str_split sep (c # cs) =
     (if c = sep then [] # str_split sep cs
      else (case str_split sep cs of
              [] \<Rightarrow> [[c]]
            | w # ws \<Rightarrow> (c # w) # ws))"

text \<open>
  \<^verbatim>\<open>int(s)\<close> for a string, base 10: white space around, an optional sign, then
  decimal digits, where one underscore may stand between two digits. Anything else raises
  \<^verbatim>\<open>ValueError\<close>, which carries the literal. (The interpreter's configurable limit
  on the number of digits is not part of the model.)
\<close>

definition isdigit :: "char \<Rightarrow> bool" where
  "isdigit c = (48 \<le> (of_char c :: nat) \<and> (of_char c :: nat) \<le> 57)"

definition digit_val :: "char \<Rightarrow> int" where
  "digit_val c = int (of_char c) - 48"

fun py_digits :: "int \<Rightarrow> string \<Rightarrow> int option" where
  "py_digits acc [] = Some acc"
| "py_digits acc (c # cs) =
     (if isdigit c then py_digits (10 * acc + digit_val c) cs
      else if c = CHR ''_'' then
        (case cs of
           [] \<Rightarrow> None
         | d # ds \<Rightarrow> if isdigit d then py_digits (10 * acc + digit_val d) ds else None)
      else None)"

definition py_int :: "string \<Rightarrow> error + int" where
  "py_int s =
     (let t = str_strip s;
          (neg, body) = (case t of
                           [] \<Rightarrow> (False, [])
                         | c # cs \<Rightarrow> if c = CHR ''-'' then (True, cs)
                                    else if c = CHR ''+'' then (False, cs)
                                    else (False, t));
          r = (case body of
                 [] \<Rightarrow> None
               | d # ds \<Rightarrow> if isdigit d then py_digits (digit_val d) ds else None)
      in case r of
           None \<Rightarrow> Inl (ValueError s)
         | Some n \<Rightarrow> Inr (if neg then - n else n))"

section \<open>The threshold evaluator\<close>

text \<open>\<^verbatim>\<open>compute_status(cfg, history, now, locked)\<close>, lines 143 to 156.\<close>

definition compute_status :: "config \<Rightarrow> int list \<Rightarrow> int \<Rightarrow> bool \<Rightarrow> Status" where
  "compute_status c history now locked =
     (let max_a = (case cfg_max_attempts c of None \<Rightarrow> 3 | Some m \<Rightarrow> m);
          window = (case cfg_time_window_seconds c of None \<Rightarrow> 300 | Some w \<Rightarrow> w);
          windowed = filter (\<lambda>t. now - t \<le> window) history;
          count = int (length windowed)
      in if locked then
           \<lparr>state = ''LOCKED'',
            message = ''Restart loop locked. Manual unlock required.'',
            attempt_count = count, max_attempts = max_a,
            window_seconds = window, timestamps = windowed\<rparr>
         else if count \<ge> max 1 (max_a - 1) then
           \<lparr>state = ''WARNING'',
            message = ''Near threshold: '' @ str_int count @ ''/'' @ str_int max_a
                      @ '' within '' @ str_int window @ ''s.'',
            attempt_count = count, max_attempts = max_a,
            window_seconds = window, timestamps = windowed\<rparr>
         else
           \<lparr>state = ''OK'',
            message = ''Normal: '' @ str_int count @ ''/'' @ str_int max_a
                      @ '' within '' @ str_int window @ ''s.'',
            attempt_count = count, max_attempts = max_a,
            window_seconds = window, timestamps = windowed\<rparr>)"

text \<open>\<^verbatim>\<open>make_incident(cfg, status, now)\<close>, lines 158 to 172.\<close>

definition make_incident :: "config \<Rightarrow> Status \<Rightarrow> int \<Rightarrow> incident" where
  "make_incident c status now =
     (let extra = (case cfg_notify c of
                     None \<Rightarrow> []
                   | Some n \<Rightarrow> (case extra_context n of None \<Rightarrow> [] | Some e \<Rightarrow> e))
      in \<lparr>inc_version = ''1.1-ui'',
          inc_timestamp = now,
          inc_state = state status,
          inc_message = message status,
          inc_attempt_count = attempt_count status,
          inc_max_attempts = max_attempts status,
          inc_window_seconds = window_seconds status,
          inc_attempt_timestamps = timestamps status,
          inc_automationz = extra\<rparr>)"

section \<open>The operations of the guard\<close>

text \<open>\<^verbatim>\<open>append_log(log_file, msg)\<close>: one more line at the end of the log.\<close>

definition append_log :: "app \<Rightarrow> string \<Rightarrow> app" where
  "append_log a msg = a\<lparr>log_file := log_file a @ [msg]\<rparr>"

text \<open>
  \<^verbatim>\<open>post_discord(webhook_url, content)\<close>, lines 121 to 132: nothing is sent to an
  empty URL; otherwise the request either returns or raises, as the network decides. The
  text of the alert has no influence on the guard's state and is not modelled.
\<close>

definition post_discord :: "(string \<Rightarrow> post_result) \<Rightarrow> string \<Rightarrow> post_result" where
  "post_discord net webhook_url = (if webhook_url = [] then Returned else net webhook_url)"

text \<open>\<^verbatim>\<open>App._maybe_notify(status)\<close>, lines 445 to 479.\<close>

definition maybe_notify :: "(string \<Rightarrow> post_result) \<Rightarrow> Status \<Rightarrow> app \<Rightarrow> app" where
  "maybe_notify net status a =
     (let notify_enabled = (case cfg_notify (cfg a) of
                              None \<Rightarrow> False
                            | Some n \<Rightarrow> (case enabled n of None \<Rightarrow> False | Some b \<Rightarrow> b))
      in if \<not> notify_enabled then a
         else
           let webhook = str_strip (case cfg_notify (cfg a) of
                                      None \<Rightarrow> []
                                    | Some n \<Rightarrow> (case discord_webhook_url n of
                                                 None \<Rightarrow> []
                                               | Some u \<Rightarrow> u))
           in if webhook = [] then append_log a ''Notify enabled but webhook empty.''
              else (case post_discord net webhook of
                      Returned \<Rightarrow> append_log a ''Notification sent (Discord).''
                    | Raised e \<Rightarrow> append_log a (''Notification failed: '' @ e)))"

text \<open>
  \<^verbatim>\<open>App.refresh_status(record)\<close>, lines 373 to 405. \<open>record = True\<close> is the
  operation recordAttempt, \<open>record = False\<close> is analyze. The status returned is the one
  the method puts on the dashboard.
\<close>

definition refresh_status ::
  "(string \<Rightarrow> post_result) \<Rightarrow> bool \<Rightarrow> int \<Rightarrow> app \<Rightarrow> app \<times> Status" where
  "refresh_status net record now a0 =
     (let history = (case state_file a0 of None \<Rightarrow> [] | Some h \<Rightarrow> h);
          locked = lock_file a0;
          (history, a1) =
            (if record \<and> \<not> locked then
               (history @ [now],
                append_log (a0\<lparr>state_file := Some (history @ [now])\<rparr>)
                  ''Recorded start attempt (UI).'')
             else (history, a0));
          status = compute_status (cfg a1) history now locked;
          a2 = a1\<lparr>state_file := Some (timestamps status)\<rparr>;
          max_a = (case cfg_max_attempts (cfg a2) of None \<Rightarrow> 3 | Some m \<Rightarrow> m)
      in if record \<and> int (length (timestamps status)) \<ge> max_a \<and> \<not> lock_file a2 then
           (let a3 = a2\<lparr>lock_file := True\<rparr>;
                status = compute_status (cfg a3) (timestamps status) now True;
                a4 = append_log a3
                       (''LOCKED (threshold reached). ''
                        @ str_int (int (length (timestamps status))) @ '' in window.'');
                a5 = a4\<lparr>incident_file := Some (make_incident (cfg a4) status now)\<rparr>
            in (maybe_notify net status a5, status))
         else (a2, status))"

text \<open>
  \<^verbatim>\<open>App.unlock()\<close>, lines 421 to 431. The message box shown is the report to the
  caller.
\<close>

definition unlock :: "(string \<Rightarrow> post_result) \<Rightarrow> int \<Rightarrow> app \<Rightarrow> app \<times> dialog" where
  "unlock net now a =
     (if \<not> lock_file a then (a, showinfo ''Unlock'' ''No lock file present.'')
      else
        (let a1 = append_log (a\<lparr>lock_file := False\<rparr>) ''Lock removed (UI).''
         in (fst (refresh_status net False now a1), showinfo ''Unlocked'' ''Lock removed.'')))"

text \<open>
  \<^verbatim>\<open>App.clear_history()\<close>, lines 433 to 443; \<open>confirmed\<close> is the answer to the
  yes/no question.
\<close>

definition clear_history ::
  "(string \<Rightarrow> post_result) \<Rightarrow> bool \<Rightarrow> int \<Rightarrow> app \<Rightarrow> app \<times> dialog option" where
  "clear_history net confirmed now a =
     (if \<not> confirmed then (a, None)
      else
        (let a1 = append_log (a\<lparr>state_file := None\<rparr>) ''History cleared (UI).''
         in (fst (refresh_status net False now a1),
             Some (showinfo ''Cleared'' ''Attempt history cleared.''))))"

text \<open>\<^verbatim>\<open>App.save_cfg()\<close>, lines 351 to 371.\<close>

fun parse_backoff :: "string list \<Rightarrow> error + int list" where
  "parse_backoff [] = Inr []"
| "parse_backoff (x # xs) =
     (if str_strip x \<noteq> [] then
        (case py_int (str_strip x) of
           Inl e \<Rightarrow> Inl e
         | Inr n \<Rightarrow> (case parse_backoff xs of Inl e \<Rightarrow> Inl e | Inr ns \<Rightarrow> Inr (n # ns)))
      else parse_backoff xs)"

definition save_cfg :: "app \<Rightarrow> app \<times> dialog" where
  "save_cfg a =
     (case py_int (str_strip (var_max a)) of
        Inl e \<Rightarrow> (a, showerror ''Save failed'' e)
      | Inr max_a \<Rightarrow>
     (case py_int (str_strip (var_window a)) of
        Inl e \<Rightarrow> (a, showerror ''Save failed'' e)
      | Inr win_s \<Rightarrow>
     (case parse_backoff (str_split CHR '','' (var_backoff a)) of
        Inl e \<Rightarrow> (a, showerror ''Save failed'' e)
      | Inr backoff \<Rightarrow>
        (let notify_enabled = var_notify_enabled a;
             webhook = str_strip (var_webhook a);
             c1 = (cfg a)\<lparr>cfg_max_attempts := Some max_a,
                          cfg_time_window_seconds := Some win_s,
                          cfg_backoff_seconds := Some backoff\<rparr>;
             n = (case cfg_notify c1 of
                    None \<Rightarrow> \<lparr>enabled = None, discord_webhook_url = None,
                              include_last_lines = None, extra_context = None\<rparr>
                  | Some n \<Rightarrow> n);
             c2 = c1\<lparr>cfg_notify := Some (n\<lparr>enabled := Some notify_enabled,
                                            discord_webhook_url := Some webhook\<rparr>)\<rparr>
         in (a\<lparr>cfg := c2, config_file := Some c2\<rparr>, showinfo ''Saved'' ''Config saved.'')))))"

text \<open>
  The caller-facing operations, each with the time at which it reads the clock, and a run
  of several operations one after the other.
\<close>

datatype op = Analyze int | RecordAttempt int | Unlock int | ClearHistory int

fun op_time :: "op \<Rightarrow> int" where
  "op_time (Analyze t) = t"
| "op_time (RecordAttempt t) = t"
| "op_time (Unlock t) = t"
| "op_time (ClearHistory t) = t"

fun step :: "(string \<Rightarrow> post_result) \<Rightarrow> app \<Rightarrow> op \<Rightarrow> app" where
  "step net a (Analyze t) = fst (refresh_status net False t a)"
| "step net a (RecordAttempt t) = fst (refresh_status net True t a)"
| "step net a (Unlock t) = fst (unlock net t a)"
| "step net a (ClearHistory t) = fst (clear_history net True t a)"

definition run :: "(string \<Rightarrow> post_result) \<Rightarrow> app \<Rightarrow> op list \<Rightarrow> app" where
  "run net a ops = foldl (step net) a ops"

section \<open>Notions used in the statements\<close>

text \<open>
  The ledger as \<^verbatim>\<open>refresh_status\<close> loads it, the two thresholds as every function
  reads them from the configuration, the window filter of \<^verbatim>\<open>compute_status\<close>, and
  the two tests of \<^verbatim>\<open>_maybe_notify\<close>.
\<close>

definition load_history :: "app \<Rightarrow> int list" where
  "load_history a = (case state_file a of None \<Rightarrow> [] | Some h \<Rightarrow> h)"

definition cfg_max :: "config \<Rightarrow> int" where
  "cfg_max c = (case cfg_max_attempts c of None \<Rightarrow> 3 | Some m \<Rightarrow> m)"

definition cfg_window :: "config \<Rightarrow> int" where
  "cfg_window c = (case cfg_time_window_seconds c of None \<Rightarrow> 300 | Some w \<Rightarrow> w)"

definition prune :: "int \<Rightarrow> int \<Rightarrow> int list \<Rightarrow> int list" where
  "prune now window h = filter (\<lambda>t. now - t \<le> window) h"

definition notify_enabled :: "config \<Rightarrow> bool" where
  "notify_enabled c =
     (case cfg_notify c of
        None \<Rightarrow> False
      | Some n \<Rightarrow> (case enabled n of None \<Rightarrow> False | Some b \<Rightarrow> b))"

definition notify_webhook :: "config \<Rightarrow> string" where
  "notify_webhook c =
     str_strip (case cfg_notify c of
                  None \<Rightarrow> []
                | Some n \<Rightarrow> (case discord_webhook_url n of None \<Rightarrow> [] | Some u \<Rightarrow> u))"

text \<open>
  Concrete inputs: the built-in configuration of \<^verbatim>\<open>_load_cfg\<close> (lines 309 to 332),
  the same with notifications switched on, a fresh application state (no ledger, no lock,
  no incident, an empty log, the form filled from the configuration), and a network on
  which every request fails.
\<close>

definition default_notify :: notify_cfg where
  "default_notify =
     \<lparr>enabled = Some False, discord_webhook_url = Some [],
      include_last_lines = Some 40,
      extra_context = Some [(''server_name'', ''THE LONG HUNT''), (''host'', []), (''notes'', [])]\<rparr>"

definition default_cfg :: config where
  "default_cfg =
     \<lparr>cfg_max_attempts = Some 3, cfg_time_window_seconds = Some 300,
      cfg_backoff_seconds = Some [0, 60, 180, 300],
      cfg_notify = Some default_notify\<rparr>"

definition notifying_cfg :: "string \<Rightarrow> config" where
  "notifying_cfg url =
     default_cfg\<lparr>cfg_notify :=
       Some (default_notify\<lparr>enabled := Some True, discord_webhook_url := Some url\<rparr>)\<rparr>"

definition fresh_app :: "config \<Rightarrow> app" where
  "fresh_app c =
     \<lparr>cfg = c, config_file = Some c, state_file = None, lock_file = False,
      incident_file = None, log_file = [],
      var_max = ''3'', var_window = ''300'', var_backoff = ''0,60,180,300'',
      var_notify_enabled = False, var_webhook = []\<rparr>"

definition net_down :: "string \<Rightarrow> post_result" where
  "net_down url = Raised ''URLError''"

text \<open>
  Two more concrete states: a locked guard whose ledger holds three attempts, and an
  unlocked one whose only attempt is old.
\<close>

definition locked_app :: app where
  "locked_app = (fresh_app default_cfg)\<lparr>state_file := Some [0, 50, 100], lock_file := True\<rparr>"

definition stale_app :: app where
  "stale_app = (fresh_app default_cfg)\<lparr>state_file := Some [0]\<rparr>"

text \<open>
  A state whose configuration notifies a webhook and whose ledger is one attempt short of
  the threshold, and two states of the configuration form: one asks for
  \<open>max_attempts = 0\<close>, the other for something that is not a number.
\<close>

definition hook_url :: string where
  "hook_url = ''https://discord.example/api/webhooks/1''"

definition notifying_app :: app where
  "notifying_app = (fresh_app (notifying_cfg hook_url))\<lparr>state_file := Some [0, 50]\<rparr>"

definition zero_max_app :: app where
  "zero_max_app = (fresh_app default_cfg)\<lparr>var_max := ''0''\<rparr>"

definition bad_max_app :: app where
  "bad_max_app = (fresh_app default_cfg)\<lparr>var_max := ''three''\<rparr>"

section \<open>Basic facts\<close>

lemma timestamps_compute_status:
  "timestamps (compute_status c h now l) = prune now (cfg_window c) h"
  by (simp add: compute_status_def cfg_window_def prune_def Let_def)

lemma attempt_count_compute_status:
  "attempt_count (compute_status c h now l) = int (length (prune now (cfg_window c) h))"
  by (simp add: compute_status_def cfg_window_def prune_def Let_def)

lemma state_compute_status:
  "state (compute_status c h now l) =
     (if l then ''LOCKED''
      else if int (length (prune now (cfg_window c) h)) \<ge> max 1 (cfg_max c - 1)
      then ''WARNING'' else ''OK'')"
  by (simp add: compute_status_def cfg_window_def cfg_max_def prune_def Let_def)

lemma prune_idem: "prune now w (prune now w h) = prune now w h"
  by (simp add: prune_def)

lemma compute_status_prune:
  "compute_status c (prune now (cfg_window c) h) now l = compute_status c h now l"
  by (simp add: compute_status_def cfg_window_def prune_def Let_def)

text \<open>The three paths of \<^verbatim>\<open>refresh_status\<close>, each as one equation.\<close>

lemma refresh_status_analyze:
  "refresh_status net False now a =
     (a\<lparr>state_file := Some (prune now (cfg_window (cfg a)) (load_history a))\<rparr>,
      compute_status (cfg a) (load_history a) now (lock_file a))"
  by (simp add: refresh_status_def Let_def load_history_def timestamps_compute_status)

lemma refresh_status_locked:
  "lock_file a \<Longrightarrow> refresh_status net True now a = refresh_status net False now a"
  by (simp add: refresh_status_def Let_def)

lemma refresh_status_record_below:
  "\<not> lock_file a \<Longrightarrow>
   int (length (prune now (cfg_window (cfg a)) (load_history a @ [now]))) < cfg_max (cfg a) \<Longrightarrow>
   refresh_status net True now a =
     (a\<lparr>state_file := Some (prune now (cfg_window (cfg a)) (load_history a @ [now])),
        log_file := log_file a @ [''Recorded start attempt (UI).'']\<rparr>,
      compute_status (cfg a) (load_history a @ [now]) now False)"
  by (simp add: refresh_status_def Let_def load_history_def timestamps_compute_status
      append_log_def cfg_max_def)

lemma refresh_status_record_lock:
  "\<not> lock_file a \<Longrightarrow>
   cfg_max (cfg a) \<le> int (length (prune now (cfg_window (cfg a)) (load_history a @ [now]))) \<Longrightarrow>
   refresh_status net True now a =
     (let st = compute_status (cfg a) (load_history a @ [now]) now True
      in (maybe_notify net st
            (a\<lparr>state_file := Some (prune now (cfg_window (cfg a)) (load_history a @ [now])),
               lock_file := True,
               log_file := log_file a @ [''Recorded start attempt (UI).'',
                 ''LOCKED (threshold reached). ''
                   @ str_int (int (length (prune now (cfg_window (cfg a)) (load_history a @ [now]))))
                   @ '' in window.''],
               incident_file := Some (make_incident (cfg a) st now)\<rparr>), st))"
  by (simp add: refresh_status_def Let_def load_history_def timestamps_compute_status
      append_log_def cfg_max_def compute_status_prune prune_idem)

text \<open>The dispatcher touches nothing but the log.\<close>

lemma maybe_notify_frame:
  "maybe_notify net s a = a\<lparr>log_file := log_file (maybe_notify net s a)\<rparr>"
  by (simp add: maybe_notify_def Let_def append_log_def split: post_result.splits)

text \<open>
  What one call of \<^verbatim>\<open>refresh_status\<close> does to the ledger, to the lock marker and
  to the configuration, and the status it shows, for both values of \<open>record\<close>.
\<close>

lemma snd_refresh_status:
  "snd (refresh_status net record now a) =
     compute_status (cfg a)
       (load_history a @ (if record \<and> \<not> lock_file a then [now] else [])) now
       (lock_file a \<or>
        (record \<and> cfg_max (cfg a)
           \<le> int (length (prune now (cfg_window (cfg a)) (load_history a @ [now])))))"
proof (cases "record")
  case False
  then show ?thesis by (simp add: refresh_status_analyze)
next
  case rec: True
  show ?thesis
  proof (cases "lock_file a")
    case True
    with rec show ?thesis by (simp add: refresh_status_locked refresh_status_analyze)
  next
    case unlocked: False
    show ?thesis
    proof (cases "cfg_max (cfg a)
        \<le> int (length (prune now (cfg_window (cfg a)) (load_history a @ [now])))")
      case True
      with rec unlocked show ?thesis by (simp add: refresh_status_record_lock Let_def)
    next
      case False
      with rec unlocked show ?thesis by (simp add: refresh_status_record_below)
    qed
  qed
qed

lemma fst_refresh_status_fields:
  "state_file (fst (refresh_status net record now a)) =
     Some (prune now (cfg_window (cfg a))
       (load_history a @ (if record \<and> \<not> lock_file a then [now] else [])))"
  "lock_file (fst (refresh_status net record now a)) =
     (lock_file a \<or>
      (record \<and> cfg_max (cfg a)
         \<le> int (length (prune now (cfg_window (cfg a)) (load_history a @ [now])))))"
  "cfg (fst (refresh_status net record now a)) = cfg a"
proof -
  have frame: "state_file (maybe_notify n s b) = state_file b"
    "lock_file (maybe_notify n s b) = lock_file b"
    "cfg (maybe_notify n s b) = cfg b" for n s b
    by (subst maybe_notify_frame, simp)+
  consider (analyze) "\<not> record" | (locked) "record" "lock_file a"
    | (lock) "record" "\<not> lock_file a"
        "cfg_max (cfg a) \<le> int (length (prune now (cfg_window (cfg a)) (load_history a @ [now])))"
    | (below) "record" "\<not> lock_file a"
        "int (length (prune now (cfg_window (cfg a)) (load_history a @ [now]))) < cfg_max (cfg a)"
    by linarith
  then have "state_file (fst (refresh_status net record now a)) =
     Some (prune now (cfg_window (cfg a))
       (load_history a @ (if record \<and> \<not> lock_file a then [now] else [])))
    \<and> lock_file (fst (refresh_status net record now a)) =
     (lock_file a \<or>
      (record \<and> cfg_max (cfg a)
         \<le> int (length (prune now (cfg_window (cfg a)) (load_history a @ [now])))))
    \<and> cfg (fst (refresh_status net record now a)) = cfg a"
  proof cases
    case analyze
    then show ?thesis by (simp add: refresh_status_analyze)
  next
    case locked
    then show ?thesis by (simp add: refresh_status_locked refresh_status_analyze)
  next
    case lock
    then show ?thesis by (simp add: refresh_status_record_lock Let_def frame)
  next
    case below
    then show ?thesis by (simp add: refresh_status_record_below)
  qed
  then show
    "state_file (fst (refresh_status net record now a)) =
       Some (prune now (cfg_window (cfg a))
         (load_history a @ (if record \<and> \<not> lock_file a then [now] else [])))"
    "lock_file (fst (refresh_status net record now a)) =
       (lock_file a \<or>
        (record \<and> cfg_max (cfg a)
           \<le> int (length (prune now (cfg_window (cfg a)) (load_history a @ [now])))))"
    "cfg (fst (refresh_status net record now a)) = cfg a"
    by simp_all
qed

lemma load_history_refresh_status:
  "load_history (fst (refresh_status net record now a)) =
     prune now (cfg_window (cfg a))
       (load_history a @ (if record \<and> \<not> lock_file a then [now] else []))"
  by (simp add: load_history_def [of "fst _"] fst_refresh_status_fields)

lemma analyze_twice:
  "refresh_status net False now (fst (refresh_status net False now a)) =
     refresh_status net False now a"
  by (simp add: refresh_status_analyze load_history_def [of "_\<lparr>state_file := _\<rparr>"]
      prune_idem compute_status_prune)

lemma run_analyze_replicate:
  "refresh_status net False now (run net a (replicate n (Analyze now))) =
     refresh_status net False now a"
proof (induction n)
  case 0
  show ?case by (simp add: run_def)
next
  case (Suc n)
  have "run net a (replicate (Suc n) (Analyze now)) =
          fst (refresh_status net False now (run net a (replicate n (Analyze now))))"
  proof -
    have "replicate (Suc n) (Analyze now) = replicate n (Analyze now) @ [Analyze now]"
      by (simp add: replicate_append_same)
    then show ?thesis unfolding run_def by (simp only: foldl_append foldl.simps step.simps)
  qed
  then show ?case using Suc by (simp add: analyze_twice)
qed

text \<open>No operation of a run changes the configuration, and an entry of the ledger after an
  operation was there before or lies within the window of the operation's time.\<close>

lemma cfg_step: "cfg (step net a x) = cfg a"
  by (cases x)
     (simp_all add: unlock_def clear_history_def fst_refresh_status_fields append_log_def Let_def)

lemma step_ledger:
  assumes "t \<in> set (load_history (step net a x))"
  shows "t \<in> set (load_history a) \<or> op_time x - t \<le> cfg_window (cfg a)"
proof -
  have r: "t \<in> set (load_history (fst (refresh_status net r n b))) \<Longrightarrow>
           n - t \<le> cfg_window (cfg b)" for r n b
    by (auto simp add: load_history_refresh_status prune_def)
  show ?thesis
  proof (cases x)
    case (Analyze n)
    with assms r show ?thesis by simp
  next
    case (RecordAttempt n)
    with assms r show ?thesis by simp
  next
    case (Unlock n)
    show ?thesis
    proof (cases "lock_file a")
      case True
      with Unlock assms have "t \<in> set (load_history (fst (refresh_status net False n
          (append_log (a\<lparr>lock_file := False\<rparr>) ''Lock removed (UI).''))))"
        by (simp add: unlock_def Let_def)
      from r [OF this] Unlock show ?thesis by (simp add: append_log_def)
    next
      case False
      with Unlock assms show ?thesis by (simp add: unlock_def)
    qed
  next
    case (ClearHistory n)
    with assms have "t \<in> set (load_history (fst (refresh_status net False n
          (append_log (a\<lparr>state_file := None\<rparr>) ''History cleared (UI).''))))"
      by (simp add: clear_history_def Let_def)
    from r [OF this] ClearHistory show ?thesis by (simp add: append_log_def)
  qed
qed

lemma run_ledger_lower_bound:
  assumes "\<forall>t \<in> set (load_history a). lo \<le> t"
    and "\<forall>x \<in> set ops. lo + cfg_window (cfg a) \<le> op_time x"
  shows "\<forall>t \<in> set (load_history (run net a ops)). lo \<le> t"
  using assms unfolding run_def
proof (induction ops arbitrary: a)
  case Nil
  then show ?case by simp
next
  case (Cons x ops)
  have "\<forall>t \<in> set (load_history (step net a x)). lo \<le> t"
  proof
    fix t assume "t \<in> set (load_history (step net a x))"
    from step_ledger [OF this] Cons.prems show "lo \<le> t" by auto
  qed
  moreover have "\<forall>y \<in> set ops. lo + cfg_window (cfg (step net a x)) \<le> op_time y"
    using Cons.prems by (simp add: cfg_step)
  ultimately show ?case using Cons.IH by simp
qed

text \<open>
  Attempts recorded in time order, all within the window of the latest one and fewer than
  the threshold, are all kept and do not lock.
\<close>

lemma prune_all_within:
  "\<forall>t \<in> set h. now - t \<le> w \<Longrightarrow> prune now w h = h"
  by (simp add: prune_def)

lemma run_snoc: "run net a (ops @ [x]) = step net (run net a ops) x"
  by (simp add: run_def)

lemma records_below_threshold:
  assumes "\<not> lock_file a" and "load_history a = []"
    and "sorted ts" and "\<forall>t \<in> set ts. last ts - t \<le> cfg_window (cfg a)"
    and "int (length ts) < cfg_max (cfg a)"
  shows "cfg (run net a (map RecordAttempt ts)) = cfg a
    \<and> \<not> lock_file (run net a (map RecordAttempt ts))
    \<and> load_history (run net a (map RecordAttempt ts)) = ts"
  using assms(3-5)
proof (induction ts rule: rev_induct)
  case Nil
  with assms(1,2) show ?case by (simp add: run_def)
next
  case (snoc x ts)
  let ?b = "run net a (map RecordAttempt ts)"
  have le: "\<forall>t \<in> set ts. t \<le> x" and srt: "sorted ts"
    using snoc.prems(1) by (simp_all add: sorted_append)
  have within: "\<forall>t \<in> set (ts @ [x]). x - t \<le> cfg_window (cfg a)"
    using snoc.prems(2) by simp
  have "\<forall>t \<in> set ts. last ts - t \<le> cfg_window (cfg a)"
  proof
    fix t assume t: "t \<in> set ts"
    then have "ts \<noteq> []" by auto
    then have "last ts \<in> set ts" by simp
    with le have "last ts \<le> x" by simp
    moreover from within t have "x - t \<le> cfg_window (cfg a)" by simp
    ultimately show "last ts - t \<le> cfg_window (cfg a)" by simp
  qed
  moreover have "int (length ts) < cfg_max (cfg a)" using snoc.prems(3) by simp
  ultimately have ih: "cfg ?b = cfg a" "\<not> lock_file ?b" "load_history ?b = ts"
    using snoc.IH srt by simp_all
  have p: "prune x (cfg_window (cfg a)) (ts @ [x]) = ts @ [x]"
    using within by (rule prune_all_within)
  have "run net a (map RecordAttempt (ts @ [x])) = fst (refresh_status net True x ?b)"
    by (simp add: run_snoc)
  moreover have "cfg (fst (refresh_status net True x ?b)) = cfg a"
    by (simp add: fst_refresh_status_fields ih)
  moreover have "\<not> lock_file (fst (refresh_status net True x ?b))"
    using snoc.prems(3) by (simp add: fst_refresh_status_fields ih p)
  moreover have "load_history (fst (refresh_status net True x ?b)) = ts @ [x]"
    by (simp add: load_history_refresh_status ih p)
  ultimately show ?case by simp
qed

text \<open>The dispatcher by cases on the two tests it makes and on what the network does.\<close>

lemma maybe_notify_cases:
  "maybe_notify net s a =
     (if \<not> notify_enabled (cfg a) then a
      else if notify_webhook (cfg a) = [] then append_log a ''Notify enabled but webhook empty.''
      else (case net (notify_webhook (cfg a)) of
              Returned \<Rightarrow> append_log a ''Notification sent (Discord).''
            | Raised e \<Rightarrow> append_log a (''Notification failed: '' @ e)))"
  by (simp add: maybe_notify_def notify_enabled_def notify_webhook_def post_discord_def Let_def)

lemma hook_url_stripped: "str_strip hook_url = hook_url"
  unfolding hook_url_def by code_simp

text \<open>The parser on the literals of the concrete states.\<close>

lemma py_int_examples:
  "py_int (str_strip ''0'') = Inr 0"
  "py_int (str_strip ''300'') = Inr 300"
  "py_int (str_strip ''three'') = Inl (ValueError ''three'')"
  "parse_backoff (str_split CHR '','' ''0,60,180,300'') = Inr [0, 60, 180, 300]"
  by code_simp+

section \<open>The claims\<close>

text \<open>
  Claim C2. The threshold evaluator is a classification by its arguments alone: with the
  lock flag set the state is LOCKED whatever the count; otherwise the state is WARNING when
  the in-window count is at least \<open>max 1 (max_attempts - 1)\<close>, and OK otherwise. The
  evaluator is a function from configuration, history, time and lock flag to a status: it
  neither receives nor returns the application state, so it cannot create or remove the
  lock marker; accordingly an analyze call, which is the evaluator plus the rewrite of the
  ledger, leaves the marker as it found it.
\<close>

theorem compute_status_classification:
  "state (compute_status c history now locked) =
     (if locked then ''LOCKED''
      else if max 1 (cfg_max c - 1) \<le> int (length (prune now (cfg_window c) history))
      then ''WARNING'' else ''OK'')
   \<and> lock_file (fst (refresh_status net False now a)) = lock_file a"
  by (simp add: state_compute_status refresh_status_analyze)

theorem compute_status_classification_witness:
  "state (compute_status default_cfg [0, 50] 100 True) = ''LOCKED''
   \<and> state (compute_status default_cfg [0, 50] 100 False) = ''WARNING''
   \<and> state (compute_status default_cfg [0, 50] 400 False) = ''OK''
   \<and> lock_file (fst (refresh_status net_down False 100 (fresh_app default_cfg))) = False"
  using compute_status_classification
          [of default_cfg "[0, 50]" 100 True net_down "fresh_app default_cfg"]
        compute_status_classification
          [of default_cfg "[0, 50]" 100 False net_down "fresh_app default_cfg"]
        compute_status_classification
          [of default_cfg "[0, 50]" 400 False net_down "fresh_app default_cfg"]
  by (simp add: cfg_max_def cfg_window_def prune_def default_cfg_def fresh_app_def)

text \<open>
  Claim C10. In every status the evaluator returns, \<open>attempt_count\<close> is the length of
  \<open>timestamps\<close>, and \<open>timestamps\<close> is the input history filtered, in order, to the
  entries \<open>t\<close> with \<open>now - t \<le> window\<close>. The same holds for the status of every analyze
  and every recordAttempt call, the one that locks included, where the history is the
  ledger loaded, with \<open>now\<close> appended when the call records while unlocked.
\<close>

theorem status_count_and_timestamps:
  "attempt_count (compute_status c history now locked)
     = int (length (timestamps (compute_status c history now locked)))
   \<and> timestamps (compute_status c history now locked)
     = filter (\<lambda>t. now - t \<le> cfg_window c) history
   \<and> attempt_count (snd (refresh_status net record now' a))
     = int (length (timestamps (snd (refresh_status net record now' a))))
   \<and> timestamps (snd (refresh_status net record now' a))
     = filter (\<lambda>t. now' - t \<le> cfg_window (cfg a))
         (load_history a @ (if record \<and> \<not> lock_file a then [now'] else []))"
  unfolding snd_refresh_status
  by (simp add: attempt_count_compute_status timestamps_compute_status prune_def)

theorem status_count_and_timestamps_witness:
  "attempt_count (snd (refresh_status net_down True 100
      ((fresh_app default_cfg)\<lparr>state_file := Some [0, 50]\<rparr>))) = 3
   \<and> timestamps (snd (refresh_status net_down True 100
      ((fresh_app default_cfg)\<lparr>state_file := Some [0, 50]\<rparr>))) = [0, 50, 100]
   \<and> state (snd (refresh_status net_down True 100
      ((fresh_app default_cfg)\<lparr>state_file := Some [0, 50]\<rparr>))) = ''LOCKED''"
  using status_count_and_timestamps
          [of default_cfg "[]" 0 False net_down True 100
              "(fresh_app default_cfg)\<lparr>state_file := Some [0, 50]\<rparr>"]
  by (simp add: snd_refresh_status state_compute_status cfg_max_def cfg_window_def prune_def
      load_history_def default_cfg_def fresh_app_def)

text \<open>
  Claim C5. Pruning is idempotent: for every history, window and time, the window filter
  applied to its own output gives the same list (also as the evaluator computes it); and
  after any number of analyze calls at one time, with no attempt between them, a further
  analyze returns the very status of the first: the same in-window count and the same
  list of timestamps.
\<close>

theorem pruning_idempotent:
  "prune now w (prune now w history) = prune now w history
   \<and> timestamps (compute_status c (timestamps (compute_status c history now locked)) now locked)
       = timestamps (compute_status c history now locked)
   \<and> snd (refresh_status net False now (run net a (replicate n (Analyze now))))
       = snd (refresh_status net False now a)"
  by (simp add: prune_idem timestamps_compute_status run_analyze_replicate)

theorem pruning_idempotent_witness:
  "prune 400 300 (prune 400 300 [0, 200, 400]) = [200, 400]
   \<and> timestamps (snd (refresh_status net_down False 400
        (run net_down stale_app (replicate 3 (Analyze 400))))) = []"
  using pruning_idempotent [of 400 300 "[0, 200, 400]" default_cfg False net_down stale_app 3]
  by (simp add: prune_def snd_refresh_status timestamps_compute_status cfg_window_def
      stale_app_def fresh_app_def default_cfg_def load_history_def)

text \<open>
  Claim C3. A recordAttempt call made while the lock marker exists appends nothing: it
  does exactly what analyze does at that time. The ledger persisted is the previous ledger
  pruned to the window, the timestamps and the count of the status are those an analyze
  call reports, and no line is written to the log.
\<close>

theorem record_while_locked_appends_nothing:
  assumes "lock_file a"
  shows "refresh_status net True now a = refresh_status net False now a
    \<and> state_file (fst (refresh_status net True now a))
        = Some (prune now (cfg_window (cfg a)) (load_history a))
    \<and> timestamps (snd (refresh_status net True now a))
        = prune now (cfg_window (cfg a)) (load_history a)
    \<and> attempt_count (snd (refresh_status net True now a))
        = attempt_count (snd (refresh_status net False now a))
    \<and> log_file (fst (refresh_status net True now a)) = log_file a"
  using assms
  by (simp add: refresh_status_locked refresh_status_analyze timestamps_compute_status)

theorem record_while_locked_appends_nothing_witness:
  "lock_file locked_app
   \<and> state_file (fst (refresh_status net_down True 120 locked_app)) = Some [0, 50, 100]
   \<and> attempt_count (snd (refresh_status net_down True 120 locked_app)) = 3
   \<and> state (snd (refresh_status net_down True 120 locked_app)) = ''LOCKED''"
proof -
  have l: "lock_file locked_app" by (simp add: locked_app_def)
  show ?thesis
    using l record_while_locked_appends_nothing [OF l, of net_down 120]
    by (simp add: refresh_status_analyze attempt_count_compute_status state_compute_status
        prune_def cfg_window_def locked_app_def fresh_app_def default_cfg_def load_history_def)
qed

text \<open>
  Claim C4. Every analyze and every recordAttempt call at time \<open>now\<close> persists, as the
  new ledger, exactly the entries \<open>t\<close> with \<open>now - t \<le> window\<close> of the ledger it
  loaded (with \<open>now\<close> appended first when the call records while unlocked), in their
  order. An entry dropped by that pruning is not in the persisted ledger, and it is in no
  ledger that any run of later operations (analyze, recordAttempt, unlock, clearHistory,
  each reading a clock not earlier than \<open>now\<close>) leaves behind.
\<close>

theorem ledger_is_window_filter_dropped_stay_out:
  "state_file (fst (refresh_status net record now a)) =
     Some (filter (\<lambda>t. now - t \<le> cfg_window (cfg a))
        (load_history a @ (if record \<and> \<not> lock_file a then [now] else [])))
   \<and> (\<forall>t ops.
        t \<in> set (load_history a @ (if record \<and> \<not> lock_file a then [now] else []))
        \<and> \<not> now - t \<le> cfg_window (cfg a)
        \<and> (\<forall>x \<in> set ops. now \<le> op_time x)
        \<longrightarrow> t \<notin> set (load_history (fst (refresh_status net record now a)))
          \<and> t \<notin> set (load_history (run net (fst (refresh_status net record now a)) ops)))"
proof (intro conjI allI impI)
  show "state_file (fst (refresh_status net record now a)) =
     Some (filter (\<lambda>t. now - t \<le> cfg_window (cfg a))
        (load_history a @ (if record \<and> \<not> lock_file a then [now] else [])))"
    by (simp add: fst_refresh_status_fields prune_def)
next
  fix t ops
  assume h: "t \<in> set (load_history a @ (if record \<and> \<not> lock_file a then [now] else []))
        \<and> \<not> now - t \<le> cfg_window (cfg a)
        \<and> (\<forall>x \<in> set ops. now \<le> op_time x)"
  let ?a' = "fst (refresh_status net record now a)"
  have base: "\<forall>x \<in> set (load_history ?a'). now - cfg_window (cfg a) \<le> x"
    by (auto simp add: load_history_refresh_status prune_def)
  from h show "t \<notin> set (load_history ?a')"
    using base by auto
  have "\<forall>x \<in> set ops. (now - cfg_window (cfg a)) + cfg_window (cfg ?a') \<le> op_time x"
    using h by (simp add: fst_refresh_status_fields)
  from run_ledger_lower_bound [OF base this, of net]
  show "t \<notin> set (load_history (run net ?a' ops))"
    using h by auto
qed

theorem ledger_is_window_filter_dropped_stay_out_witness:
  "state_file (fst (refresh_status net_down True 400 stale_app)) = Some [400]
   \<and> 0 \<in> set (load_history stale_app @ [400])
   \<and> \<not> (400 - (0::int) \<le> cfg_window (cfg stale_app))
   \<and> 0 \<notin> set (load_history (run net_down (fst (refresh_status net_down True 400 stale_app))
                [Analyze 400, RecordAttempt 500]))"
proof -
  have s: "cfg stale_app = default_cfg" "load_history stale_app = [0]" "\<not> lock_file stale_app"
    by (simp_all add: stale_app_def fresh_app_def load_history_def)
  have w: "cfg_window default_cfg = 300" by (simp add: cfg_window_def default_cfg_def)
  have h: "0 \<in> set (load_history stale_app @ (if True \<and> \<not> lock_file stale_app then [400] else []))
        \<and> \<not> 400 - 0 \<le> cfg_window (cfg stale_app)
        \<and> (\<forall>x \<in> set [Analyze 400, RecordAttempt 500]. 400 \<le> op_time x)"
    by (simp add: s w)
  note c4 = ledger_is_window_filter_dropped_stay_out [of net_down True 400 stale_app]
  from c4 have "state_file (fst (refresh_status net_down True 400 stale_app)) = Some [400]"
    by (simp add: s w)
  moreover from c4 h
  have "0 \<notin> set (load_history (run net_down (fst (refresh_status net_down True 400 stale_app))
                [Analyze 400, RecordAttempt 500]))"
    by blast
  ultimately show ?thesis using h by (simp add: s w)
qed

text \<open>
  Claim C6. With no lock marker, unlock changes nothing and reports ``No lock file
  present''. With the marker present it reports ``Lock removed'' (a different report),
  the marker is gone afterwards, so that a second unlock finds nothing to remove, and the
  ledger is the previous one pruned; an analyze after it classifies by the unlocked rule
  (WARNING from \<open>max 1 (max_attempts - 1)\<close> on, OK below) over that pruned ledger.
\<close>

theorem unlock_report_and_unlocked_analysis:
  "(\<not> lock_file a \<longrightarrow> unlock net now a = (a, showinfo ''Unlock'' ''No lock file present.''))
   \<and> (lock_file a \<longrightarrow>
        snd (unlock net now a) = showinfo ''Unlocked'' ''Lock removed.''
        \<and> snd (unlock net now a) \<noteq> showinfo ''Unlock'' ''No lock file present.''
        \<and> \<not> lock_file (fst (unlock net now a))
        \<and> state_file (fst (unlock net now a))
            = Some (prune now (cfg_window (cfg a)) (load_history a))
        \<and> snd (unlock net now2 (fst (unlock net now a)))
            = showinfo ''Unlock'' ''No lock file present.''
        \<and> timestamps (snd (refresh_status net False now1 (fst (unlock net now a))))
            = prune now1 (cfg_window (cfg a)) (prune now (cfg_window (cfg a)) (load_history a))
        \<and> state (snd (refresh_status net False now1 (fst (unlock net now a))))
            = (if max 1 (cfg_max (cfg a) - 1)
                   \<le> int (length (prune now1 (cfg_window (cfg a))
                                   (prune now (cfg_window (cfg a)) (load_history a))))
               then ''WARNING'' else ''OK''))"
proof (intro conjI impI)
  assume "\<not> lock_file a"
  then show "unlock net now a = (a, showinfo ''Unlock'' ''No lock file present.'')"
    by (simp add: unlock_def)
next
  assume l: "lock_file a"
  let ?a1 = "append_log (a\<lparr>lock_file := False\<rparr>) ''Lock removed (UI).''"
  have u: "fst (unlock net now a) = fst (refresh_status net False now ?a1)"
    using l by (simp add: unlock_def Let_def)
  have a1: "cfg ?a1 = cfg a" "load_history ?a1 = load_history a" "\<not> lock_file ?a1"
    by (simp_all add: append_log_def load_history_def)
  show "snd (unlock net now a) = showinfo ''Unlocked'' ''Lock removed.''"
    using l by (simp add: unlock_def Let_def)
  then show "snd (unlock net now a) \<noteq> showinfo ''Unlock'' ''No lock file present.''"
    by simp
  show nl: "\<not> lock_file (fst (unlock net now a))"
    unfolding u by (simp add: fst_refresh_status_fields a1)
  show sf: "state_file (fst (unlock net now a))
            = Some (prune now (cfg_window (cfg a)) (load_history a))"
    unfolding u by (simp add: fst_refresh_status_fields a1)
  show "snd (unlock net now2 (fst (unlock net now a)))
            = showinfo ''Unlock'' ''No lock file present.''"
    using nl by (simp add: unlock_def)
  have c: "cfg (fst (unlock net now a)) = cfg a"
    unfolding u by (simp add: fst_refresh_status_fields a1)
  have lh: "load_history (fst (unlock net now a)) = prune now (cfg_window (cfg a)) (load_history a)"
    using sf by (simp add: load_history_def)
  show "timestamps (snd (refresh_status net False now1 (fst (unlock net now a))))
            = prune now1 (cfg_window (cfg a)) (prune now (cfg_window (cfg a)) (load_history a))"
    by (simp add: snd_refresh_status timestamps_compute_status c lh)
  show "state (snd (refresh_status net False now1 (fst (unlock net now a))))
            = (if max 1 (cfg_max (cfg a) - 1)
                   \<le> int (length (prune now1 (cfg_window (cfg a))
                                   (prune now (cfg_window (cfg a)) (load_history a))))
               then ''WARNING'' else ''OK'')"
    using nl by (simp add: snd_refresh_status state_compute_status c lh)
qed

theorem unlock_report_and_unlocked_analysis_witness:
  "\<not> lock_file stale_app
   \<and> unlock net_down 120 stale_app = (stale_app, showinfo ''Unlock'' ''No lock file present.'')
   \<and> lock_file locked_app
   \<and> snd (unlock net_down 120 locked_app) = showinfo ''Unlocked'' ''Lock removed.''
   \<and> \<not> lock_file (fst (unlock net_down 120 locked_app))
   \<and> state (snd (refresh_status net_down False 130 (fst (unlock net_down 120 locked_app))))
       = ''WARNING''
   \<and> state (snd (refresh_status net_down False 360 (fst (unlock net_down 120 locked_app))))
       = ''OK''"
proof -
  have s: "\<not> lock_file stale_app" by (simp add: stale_app_def fresh_app_def)
  have l: "lock_file locked_app" "cfg locked_app = default_cfg"
    "load_history locked_app = [0, 50, 100]"
    by (simp_all add: locked_app_def fresh_app_def load_history_def)
  have w: "cfg_window default_cfg = 300" "cfg_max default_cfg = 3"
    by (simp_all add: cfg_window_def cfg_max_def default_cfg_def)
  show ?thesis
    using unlock_report_and_unlocked_analysis [of stale_app net_down 120 0 0] unlock_report_and_unlocked_analysis [of locked_app net_down 120 0 130]
      unlock_report_and_unlocked_analysis [of locked_app net_down 120 0 360]
    by (simp add: s l w prune_def)
qed

text \<open>
  Claim C1. Start unlocked with an empty ledger, threshold \<open>M\<close> and window \<open>W\<close>, and
  make recordAttempt calls one after the other, at the times \<open>ts\<close> (in the order of the
  calls, so nondecreasing), all within \<open>W\<close> seconds of the latest call. When the latest
  call is the \<open>M\<close>-th, its status is LOCKED and the lock marker exists. When it is an
  earlier one, no lock marker exists and its status is WARNING if the number of calls has
  reached \<open>max 1 (M - 1)\<close>, and OK otherwise. (The bounds \<open>M \<ge> 1\<close> and \<open>W \<ge> 1\<close> of
  the claim are not needed: there is at least one call and at most \<open>M\<close>.)
\<close>

theorem lock_after_threshold_attempts:
  assumes "cfg_max (cfg a) = M" and "cfg_window (cfg a) = W"
    and "\<not> lock_file a" and "load_history a = []"
    and "ts \<noteq> []" and "sorted ts" and "\<forall>t \<in> set ts. last ts - t \<le> W"
    and "int (length ts) \<le> M"
  shows "let r = refresh_status net True (last ts) (run net a (map RecordAttempt (butlast ts)))
         in (int (length ts) = M \<longrightarrow> state (snd r) = ''LOCKED'' \<and> lock_file (fst r))
          \<and> (int (length ts) < M \<longrightarrow>
               \<not> lock_file (fst r)
               \<and> state (snd r) =
                   (if max 1 (M - 1) \<le> int (length ts) then ''WARNING'' else ''OK''))"
proof -
  let ?b = "run net a (map RecordAttempt (butlast ts))"
  have ts: "butlast ts @ [last ts] = ts" using assms(5) by simp
  have srt: "sorted (butlast ts)" using assms(6) by (rule sorted_butlast)
  have le: "\<forall>t \<in> set (butlast ts). t \<le> last ts"
  proof -
    from assms(6) ts have "sorted (butlast ts @ [last ts])" by simp
    then show ?thesis by (simp add: sorted_append)
  qed
  have "\<forall>t \<in> set (butlast ts). last (butlast ts) - t \<le> cfg_window (cfg a)"
  proof
    fix t assume t: "t \<in> set (butlast ts)"
    then have "butlast ts \<noteq> []" by auto
    then have "last (butlast ts) \<in> set (butlast ts)" by simp
    with le have "last (butlast ts) \<le> last ts" by simp
    moreover from t have "t \<in> set ts" by (rule in_set_butlastD)
    with assms(7) have "last ts - t \<le> W" by simp
    ultimately show "last (butlast ts) - t \<le> cfg_window (cfg a)" using assms(2) by simp
  qed
  moreover have "int (length (butlast ts)) < cfg_max (cfg a)"
    using assms(1,5,8) by (cases ts rule: rev_cases) simp_all
  ultimately have b: "cfg ?b = cfg a" "\<not> lock_file ?b" "load_history ?b = butlast ts"
    using records_below_threshold [OF assms(3,4) srt, of net] by simp_all
  have p: "prune (last ts) W (butlast ts @ [last ts]) = ts"
    using assms(7) by (simp only: ts prune_all_within)
  have st: "state (snd (refresh_status net True (last ts) ?b)) =
      (if M \<le> int (length ts) then ''LOCKED''
       else if max 1 (M - 1) \<le> int (length ts) then ''WARNING'' else ''OK'')"
    by (simp add: snd_refresh_status state_compute_status b assms(1,2) p)
  have lk: "lock_file (fst (refresh_status net True (last ts) ?b)) = (M \<le> int (length ts))"
    using p by (simp add: fst_refresh_status_fields b assms(1,2))
  show ?thesis
    unfolding Let_def using st lk by simp
qed

theorem lock_after_threshold_attempts_witness:
  "state (snd (refresh_status net_down True 100
      (run net_down (fresh_app default_cfg) [RecordAttempt 0, RecordAttempt 50]))) = ''LOCKED''
   \<and> lock_file (fst (refresh_status net_down True 100
      (run net_down (fresh_app default_cfg) [RecordAttempt 0, RecordAttempt 50])))
   \<and> state (snd (refresh_status net_down True 50
      (run net_down (fresh_app default_cfg) [RecordAttempt 0]))) = ''WARNING''
   \<and> \<not> lock_file (fst (refresh_status net_down True 50
      (run net_down (fresh_app default_cfg) [RecordAttempt 0])))
   \<and> state (snd (refresh_status net_down True 0
      (run net_down (fresh_app default_cfg) []))) = ''OK''"
proof -
  have c: "cfg_max (cfg (fresh_app default_cfg)) = 3"
    "cfg_window (cfg (fresh_app default_cfg)) = 300"
    "\<not> lock_file (fresh_app default_cfg)" "load_history (fresh_app default_cfg) = []"
    by (simp_all add: cfg_max_def cfg_window_def fresh_app_def default_cfg_def load_history_def)
  have "[0, 50, 100] \<noteq> ([] :: int list)" "sorted [0, 50, 100 :: int]"
    "\<forall>t \<in> set [0, 50, 100 :: int]. last [0, 50, 100] - t \<le> 300"
    "int (length [0, 50, 100 :: int]) \<le> 3"
    by simp_all
  from lock_after_threshold_attempts [OF c this, of net_down]
  have 3: "state (snd (refresh_status net_down True 100
      (run net_down (fresh_app default_cfg) [RecordAttempt 0, RecordAttempt 50]))) = ''LOCKED''
   \<and> lock_file (fst (refresh_status net_down True 100
      (run net_down (fresh_app default_cfg) [RecordAttempt 0, RecordAttempt 50])))"
    by (simp add: Let_def)
  have "[0, 50] \<noteq> ([] :: int list)" "sorted [0, 50 :: int]"
    "\<forall>t \<in> set [0, 50 :: int]. last [0, 50] - t \<le> 300"
    "int (length [0, 50 :: int]) \<le> 3"
    by simp_all
  from lock_after_threshold_attempts [OF c this, of net_down]
  have 2: "state (snd (refresh_status net_down True 50
      (run net_down (fresh_app default_cfg) [RecordAttempt 0]))) = ''WARNING''
   \<and> \<not> lock_file (fst (refresh_status net_down True 50
      (run net_down (fresh_app default_cfg) [RecordAttempt 0])))"
    by (simp add: Let_def)
  have "[0] \<noteq> ([] :: int list)" "sorted [0 :: int]"
    "\<forall>t \<in> set [0 :: int]. last [0] - t \<le> 300"
    "int (length [0 :: int]) \<le> 3"
    by simp_all
  from lock_after_threshold_attempts [OF c this, of net_down]
  have 1: "state (snd (refresh_status net_down True 0
      (run net_down (fresh_app default_cfg) []))) = ''OK''"
    by (simp add: Let_def)
  from 1 2 3 show ?thesis by simp
qed

text \<open>
  Claim C7. When a recordAttempt call reaches the threshold and the POST of the alert
  fails (the request raises, whatever the error), the failure is caught and logged, and
  the call completes as a lock transition: the status is LOCKED, the lock marker is set,
  the incident record holds the locked status, the ledger is persisted, and the log ends
  with the line of the failure.
\<close>

theorem notification_failure_keeps_lock:
  assumes "\<not> lock_file a"
    and "cfg_max (cfg a) \<le> int (length (prune now (cfg_window (cfg a)) (load_history a @ [now])))"
    and "notify_enabled (cfg a)" and "notify_webhook (cfg a) \<noteq> []"
    and "net (notify_webhook (cfg a)) = Raised e"
  shows "state (snd (refresh_status net True now a)) = ''LOCKED''
    \<and> lock_file (fst (refresh_status net True now a))
    \<and> incident_file (fst (refresh_status net True now a))
        = Some (make_incident (cfg a) (snd (refresh_status net True now a)) now)
    \<and> state_file (fst (refresh_status net True now a))
        = Some (prune now (cfg_window (cfg a)) (load_history a @ [now]))
    \<and> log_file (fst (refresh_status net True now a))
        = log_file a @ [''Recorded start attempt (UI).'',
             ''LOCKED (threshold reached). ''
               @ str_int (int (length (prune now (cfg_window (cfg a)) (load_history a @ [now]))))
               @ '' in window.'',
             ''Notification failed: '' @ e]"
  using assms
  by (simp add: refresh_status_record_lock Let_def maybe_notify_cases append_log_def
      state_compute_status)

theorem notification_failure_keeps_lock_witness:
  "net_down (notify_webhook (cfg notifying_app)) = Raised ''URLError''
   \<and> state (snd (refresh_status net_down True 100 notifying_app)) = ''LOCKED''
   \<and> lock_file (fst (refresh_status net_down True 100 notifying_app))
   \<and> state_file (fst (refresh_status net_down True 100 notifying_app)) = Some [0, 50, 100]
   \<and> last (log_file (fst (refresh_status net_down True 100 notifying_app)))
        = ''Notification failed: URLError''"
proof -
  have a: "cfg notifying_app = notifying_cfg hook_url" "\<not> lock_file notifying_app"
    "load_history notifying_app = [0, 50]"
    by (simp_all add: notifying_app_def fresh_app_def load_history_def)
  have c: "cfg_max (notifying_cfg hook_url) = 3" "cfg_window (notifying_cfg hook_url) = 300"
    "notify_enabled (notifying_cfg hook_url)"
    "notify_webhook (notifying_cfg hook_url) = hook_url"
    by (simp_all add: cfg_max_def cfg_window_def notify_enabled_def notify_webhook_def
        notifying_cfg_def default_cfg_def default_notify_def hook_url_stripped)
  have h: "hook_url \<noteq> []" by (simp add: hook_url_def)
  have p: "prune 100 300 [0, 50, 100] = [0, 50, 100]" by (simp add: prune_def)
  have 1: "\<not> lock_file notifying_app" by (simp add: a)
  have 2: "cfg_max (cfg notifying_app)
      \<le> int (length (prune 100 (cfg_window (cfg notifying_app)) (load_history notifying_app @ [100])))"
    by (simp add: a c p)
  have 3: "notify_enabled (cfg notifying_app)" by (simp add: a c)
  have 4: "notify_webhook (cfg notifying_app) \<noteq> []" by (simp add: a c h)
  have 5: "net_down (notify_webhook (cfg notifying_app)) = Raised ''URLError''"
    by (simp add: net_down_def)
  from notification_failure_keeps_lock [where a = notifying_app and now = 100 and net = net_down and e = "''URLError''",
      OF 1 2 3 4 5] 5
  show ?thesis by (simp add: a c p)
qed

text \<open>
  Claim C8 as stated asks that the skip be written to the audit log in both skip cases.
  With notifications disabled (the built-in configuration) the dispatcher returns without
  writing anything: the log is what it was.
\<close>

theorem notify_disabled_skip_not_logged:
  "\<not> notify_enabled (cfg (fresh_app default_cfg))
   \<and> log_file (maybe_notify net_down (compute_status default_cfg [0] 0 True)
        (fresh_app default_cfg)) = log_file (fresh_app default_cfg)"
  by (simp add: maybe_notify_cases notify_enabled_def fresh_app_def default_cfg_def
      default_notify_def)

text \<open>
  Claim C8, amended. The dispatcher sends nothing and raises nothing both when
  notifications are disabled and when the webhook URL is blank. When they are disabled it
  changes nothing at all (no line is logged); when they are enabled and the URL is blank
  after stripping, it appends the line ``Notify enabled but webhook empty.'' to the log
  and changes nothing else. Neither result depends on the network.
\<close>

theorem notify_skip_cases:
  "(\<not> notify_enabled (cfg a) \<longrightarrow> maybe_notify net status a = a)
   \<and> (notify_enabled (cfg a) \<and> notify_webhook (cfg a) = [] \<longrightarrow>
        maybe_notify net status a = append_log a ''Notify enabled but webhook empty.'')"
  by (simp add: maybe_notify_cases)

theorem notify_skip_cases_witness:
  "\<not> notify_enabled (cfg (fresh_app default_cfg))
   \<and> maybe_notify net_down (compute_status default_cfg [0] 0 True) (fresh_app default_cfg)
       = fresh_app default_cfg
   \<and> notify_enabled (cfg (fresh_app (notifying_cfg ''  '')))
   \<and> notify_webhook (cfg (fresh_app (notifying_cfg ''  ''))) = []
   \<and> log_file (maybe_notify net_down (compute_status default_cfg [0] 0 True)
        (fresh_app (notifying_cfg ''  ''))) = [''Notify enabled but webhook empty.'']"
proof -
  have d: "\<not> notify_enabled (cfg (fresh_app default_cfg))"
    by (simp add: notify_enabled_def fresh_app_def default_cfg_def default_notify_def)
  have e: "notify_enabled (cfg (fresh_app (notifying_cfg ''  '')))"
    by (simp add: notify_enabled_def fresh_app_def notifying_cfg_def)
  have s: "str_strip ''  '' = []" by code_simp
  have b: "notify_webhook (cfg (fresh_app (notifying_cfg ''  ''))) = []"
    by (simp add: notify_webhook_def fresh_app_def notifying_cfg_def s)
  from notify_skip_cases [of "fresh_app default_cfg" net_down "compute_status default_cfg [0] 0 True"]
       notify_skip_cases [of "fresh_app (notifying_cfg ''  '')" net_down "compute_status default_cfg [0] 0 True"]
       d e b
  show ?thesis by (simp add: append_log_def fresh_app_def)
qed

text \<open>
  Claim C9 as stated asks that a save with \<open>max_attempts < 1\<close> be rejected. A save of
  the form with \<open>max_attempts = 0\<close> is accepted: the configuration in memory and the one
  stored both carry \<open>max_attempts = 0\<close>, and the message box reports success.
\<close>

theorem save_cfg_accepts_zero_max_attempts:
  "cfg_max_attempts (cfg (fst (save_cfg zero_max_app))) = Some 0
   \<and> config_file (fst (save_cfg zero_max_app)) = Some (cfg (fst (save_cfg zero_max_app)))
   \<and> snd (save_cfg zero_max_app) = showinfo ''Saved'' ''Config saved.''
   \<and> \<not> (1 \<le> cfg_max (cfg (fst (save_cfg zero_max_app))))"
  by (simp add: save_cfg_def zero_max_app_def fresh_app_def py_int_examples Let_def cfg_max_def del: str_split.simps parse_backoff.simps)

text \<open>
  Claim C9, amended. The save operation rejects a save exactly when \<open>max_attempts\<close>,
  the window or an entry of the backoff list is not an integer literal; the rejected save
  shows an error and leaves the configuration, in memory and stored, unchanged. Every other
  save is accepted and persists as \<open>max_attempts\<close> the integer entered, whatever its
  value: there is no lower bound on it.
\<close>

theorem save_cfg_rejects_only_non_integers:
  "((\<exists>m w b. py_int (str_strip (var_max a)) = Inr m
        \<and> py_int (str_strip (var_window a)) = Inr w
        \<and> parse_backoff (str_split CHR '','' (var_backoff a)) = Inr b) \<longrightarrow>
      snd (save_cfg a) = showinfo ''Saved'' ''Config saved.''
      \<and> py_int (str_strip (var_max a)) = Inr (cfg_max (cfg (fst (save_cfg a))))
      \<and> cfg_max_attempts (cfg (fst (save_cfg a))) = Some (cfg_max (cfg (fst (save_cfg a))))
      \<and> config_file (fst (save_cfg a)) = Some (cfg (fst (save_cfg a))))
   \<and> (\<not> (\<exists>m w b. py_int (str_strip (var_max a)) = Inr m
        \<and> py_int (str_strip (var_window a)) = Inr w
        \<and> parse_backoff (str_split CHR '','' (var_backoff a)) = Inr b) \<longrightarrow>
      fst (save_cfg a) = a \<and> (\<exists>e. snd (save_cfg a) = showerror ''Save failed'' e))"
  by (auto simp add: save_cfg_def Let_def cfg_max_def split: sum.splits)

theorem save_cfg_rejects_only_non_integers_witness:
  "py_int (str_strip (var_max zero_max_app)) = Inr 0
   \<and> snd (save_cfg zero_max_app) = showinfo ''Saved'' ''Config saved.''
   \<and> cfg_max_attempts (cfg (fst (save_cfg zero_max_app))) = Some 0
   \<and> py_int (str_strip (var_max bad_max_app)) = Inl (ValueError ''three'')
   \<and> fst (save_cfg bad_max_app) = bad_max_app"
proof -
  have z: "var_max zero_max_app = ''0''" "var_window zero_max_app = ''300''"
    "var_backoff zero_max_app = ''0,60,180,300''"
    by (simp_all add: zero_max_app_def fresh_app_def)
  have ok: "\<exists>m w b. py_int (str_strip (var_max zero_max_app)) = Inr m
        \<and> py_int (str_strip (var_window zero_max_app)) = Inr w
        \<and> parse_backoff (str_split CHR '','' (var_backoff zero_max_app)) = Inr b"
    by (simp add: z py_int_examples del: str_split.simps parse_backoff.simps)
  have b: "var_max bad_max_app = ''three''" by (simp add: bad_max_app_def fresh_app_def)
  have bad: "\<not> (\<exists>m w b. py_int (str_strip (var_max bad_max_app)) = Inr m
        \<and> py_int (str_strip (var_window bad_max_app)) = Inr w
        \<and> parse_backoff (str_split CHR '','' (var_backoff bad_max_app)) = Inr b)"
    by (simp add: b py_int_examples del: str_split.simps parse_backoff.simps)
  from save_cfg_rejects_only_non_integers [of zero_max_app] ok
  have 1: "snd (save_cfg zero_max_app) = showinfo ''Saved'' ''Config saved.''
     \<and> cfg_max_attempts (cfg (fst (save_cfg zero_max_app))) = Some 0"
    by (simp add: z py_int_examples del: str_split.simps parse_backoff.simps)
  from save_cfg_rejects_only_non_integers [of bad_max_app] bad
  have 2: "fst (save_cfg bad_max_app) = bad_max_app" by blast
  from 1 2 show ?thesis by (simp add: z b py_int_examples del: str_split.simps parse_backoff.simps)
qed

end
